theory Spec2Isabelle
  imports Main "HOL-Library.Word"
begin

section \<open>The board: pins, EEPROM and the Modbus buffers\<close>

text \<open>
  The sketch \<^verbatim>\<open>examples/full/full.ino\<close> binds four Modbus handlers to the pins and the
  EEPROM of an AVR Arduino.  On that target \<^verbatim>\<open>int\<close> and \<^verbatim>\<open>unsigned int\<close> have 16
  bits, so \<^verbatim>\<open>address + i\<close> and \<^verbatim>\<open>(address + i) * 2\<close> (a \<^verbatim>\<open>uint16_t\<close> combined with an
  \<^verbatim>\<open>int\<close>) are computed modulo \<open>2 ^ 16\<close>, and the comparison \<^verbatim>\<open>i < length\<close> is
  unsigned.  The loop counter \<^verbatim>\<open>int i\<close> of a handler is therefore kept as a 16-bit word
  that runs through 0, ..., \<^verbatim>\<open>length\<close> - 1.  The pin functions of the Arduino core take
  the pin number as a \<^verbatim>\<open>uint8_t\<close>, so every pin argument is cut to its low 8 bits at
  the call.
\<close>

type_synonym uint8_t = "8 word"
type_synonym uint16_t = "16 word"

text \<open>The direction of a pin, as \<^verbatim>\<open>pinMode\<close> of the Arduino core knows it.\<close>

datatype pin_mode = INPUT | OUTPUT | INPUT_PULLUP

text \<open>
  One entry for every call the sketch makes into the Arduino core, the EEPROM library
  and the buffer primitives of the Modbus object, in the order of the calls.
\<close>

datatype call =
    PinMode uint8_t pin_mode
  | DigitalRead uint8_t
  | DigitalWrite uint8_t uint8_t
  | AnalogRead uint8_t
  | EEPROMGet uint16_t
  | EEPROMPut uint16_t uint16_t
  | WriteCoilToBuffer uint16_t bool
  | WriteRegisterToBuffer uint16_t uint16_t
  | ReadRegisterFromBuffer uint16_t

text \<open>
  The state the handlers see: per pin its direction, the level its output latch
  drives and the level applied to it from outside; per analog channel the current
  sample; the EEPROM as bytes; the request buffer and the response buffer of the
  Modbus object; and the log of calls.
\<close>

record board =
  pin_dir :: "uint8_t \<Rightarrow> pin_mode"
  pin_out :: "uint8_t \<Rightarrow> bool"
  pin_in :: "uint8_t \<Rightarrow> bool"
  analog_in :: "uint8_t \<Rightarrow> uint16_t"
  eeprom :: "uint16_t \<Rightarrow> uint8_t"
  bufIn :: "uint16_t \<Rightarrow> uint16_t"
  bufOut_bits :: "uint16_t \<rightharpoonup> bool"
  bufOut_words :: "uint16_t \<rightharpoonup> uint16_t"
  calls :: "call list"

subsection \<open>Constants of the sketch\<close>

definition CTRL_PIN :: uint16_t where
  "CTRL_PIN = 8"

definition PIN_MODE_INPUT :: uint16_t where
  "PIN_MODE_INPUT = 0"

definition PIN_MODE_OUTPUT :: uint16_t where
  "PIN_MODE_OUTPUT = 1"

text \<open>
  The function codes come from the header of the Modbus library; the sketch states
  their values in the comments of its handlers (\<^verbatim>\<open>FC=01\<close> to \<^verbatim>\<open>FC=05\<close>, \<^verbatim>\<open>FC=16\<close>).
\<close>

definition FC_READ_COILS :: uint8_t where
  "FC_READ_COILS = 1"

definition FC_READ_DISCRETE_INPUT :: uint8_t where
  "FC_READ_DISCRETE_INPUT = 2"

definition FC_READ_HOLDING_REGISTERS :: uint8_t where
  "FC_READ_HOLDING_REGISTERS = 3"

definition FC_READ_INPUT_REGISTERS :: uint8_t where
  "FC_READ_INPUT_REGISTERS = 4"

definition FC_WRITE_COIL :: uint8_t where
  "FC_WRITE_COIL = 5"

definition FC_WRITE_MULTIPLE_REGISTERS :: uint8_t where
  "FC_WRITE_MULTIPLE_REGISTERS = 16"

subsection \<open>The Arduino core: pins\<close>

definition pinMode :: "uint8_t \<Rightarrow> pin_mode \<Rightarrow> board \<Rightarrow> board" where
  "pinMode pin m s =
     s\<lparr>pin_dir := (pin_dir s)(pin := m), calls := calls s @ [PinMode pin m]\<rparr>"

text \<open>A pin that drives its latch reads back the latch, any other pin the outside level.\<close>

definition digitalRead :: "uint8_t \<Rightarrow> board \<Rightarrow> bool \<times> board" where
  "digitalRead pin s =
     (if pin_dir s pin = OUTPUT then pin_out s pin else pin_in s pin,
      s\<lparr>calls := calls s @ [DigitalRead pin]\<rparr>)"

text \<open>\<^verbatim>\<open>digitalWrite(pin, val)\<close> clears the latch for \<^verbatim>\<open>LOW\<close> (0) and sets it otherwise.\<close>

definition digitalWrite :: "uint8_t \<Rightarrow> uint8_t \<Rightarrow> board \<Rightarrow> board" where
  "digitalWrite pin val s =
     s\<lparr>pin_out := (pin_out s)(pin := (val \<noteq> 0)),
       calls := calls s @ [DigitalWrite pin val]\<rparr>"

definition analogRead :: "uint8_t \<Rightarrow> board \<Rightarrow> uint16_t \<times> board" where
  "analogRead pin s = (analog_in s pin, s\<lparr>calls := calls s @ [AnalogRead pin]\<rparr>)"

subsection \<open>The EEPROM library, at type \<^verbatim>\<open>uint16_t\<close>\<close>

text \<open>
  \<^verbatim>\<open>EEPROM.get(idx, value)\<close> copies \<^verbatim>\<open>sizeof(value)\<close> bytes starting at byte \<^verbatim>\<open>idx\<close> into
  the variable, and \<^verbatim>\<open>EEPROM.put(idx, value)\<close> copies them back; the AVR stores the low
  byte first.
\<close>

definition eeprom_word :: "(uint16_t \<Rightarrow> uint8_t) \<Rightarrow> uint16_t \<Rightarrow> uint16_t" where
  "eeprom_word mem idx = word_cat (mem (idx + 1)) (mem idx)"

definition EEPROM_get :: "uint16_t \<Rightarrow> board \<Rightarrow> uint16_t \<times> board" where
  "EEPROM_get idx s =
     (eeprom_word (eeprom s) idx, s\<lparr>calls := calls s @ [EEPROMGet idx]\<rparr>)"

definition EEPROM_put :: "uint16_t \<Rightarrow> uint16_t \<Rightarrow> board \<Rightarrow> board" where
  "EEPROM_put idx v s =
     s\<lparr>eeprom := (eeprom s)(idx := ucast v, idx + 1 := ucast (drop_bit 8 v)),
       calls := calls s @ [EEPROMPut idx v]\<rparr>"

subsection \<open>The buffer primitives of the Modbus object\<close>

text \<open>
  Modelled from the spec: the bodies of \<^verbatim>\<open>Modbus::writeCoilToBuffer\<close>,
  \<^verbatim>\<open>Modbus::writeRegisterToBuffer\<close> and \<^verbatim>\<open>Modbus::readRegisterFromBuffer\<close> belong to the
  library, whose source is not part of the sketch.  The spec describes them as "write
  bit i of response", "write word i of response" and "read word i of request", all
  indexed from 0 whatever the starting address is.  A slot of the response that no
  handler has written is \<open>None\<close>.
\<close>

definition writeCoilToBuffer :: "uint16_t \<Rightarrow> bool \<Rightarrow> board \<Rightarrow> board" where
  "writeCoilToBuffer offset state s =
     s\<lparr>bufOut_bits := (bufOut_bits s)(offset \<mapsto> state),
       calls := calls s @ [WriteCoilToBuffer offset state]\<rparr>"

definition writeRegisterToBuffer :: "uint16_t \<Rightarrow> uint16_t \<Rightarrow> board \<Rightarrow> board" where
  "writeRegisterToBuffer offset v s =
     s\<lparr>bufOut_words := (bufOut_words s)(offset \<mapsto> v),
       calls := calls s @ [WriteRegisterToBuffer offset v]\<rparr>"

definition readRegisterFromBuffer :: "uint16_t \<Rightarrow> board \<Rightarrow> uint16_t \<times> board" where
  "readRegisterFromBuffer offset s =
     (bufIn s offset, s\<lparr>calls := calls s @ [ReadRegisterFromBuffer offset]\<rparr>)"

section \<open>The sketch\<close>

text \<open>
  Each handler takes the board and returns the board it leaves behind.  The parameter
  \<^verbatim>\<open>length\<close> of the handlers is written \<open>len\<close>, and the startup routine is called
  \<open>setup_sketch\<close>, since \<open>length\<close> and \<open>setup\<close> already have a meaning in Isabelle.
\<close>

subsection \<open>The startup routine\<close>

text \<open>
  One round of the loop: get the mode word of the pin at the byte offset
  \<^verbatim>\<open>pinIndex * 2\<close>, then the \<^verbatim>\<open>switch\<close> on it, which has no \<^verbatim>\<open>default\<close> case.
\<close>

definition setup_body :: "uint16_t \<Rightarrow> board \<Rightarrow> board" where
  "setup_body pinIndex s =
     (case EEPROM_get (pinIndex * 2) s of (eepromValue, s1) \<Rightarrow>
        if eepromValue = PIN_MODE_INPUT then pinMode (ucast pinIndex) INPUT s1
        else if eepromValue = PIN_MODE_OUTPUT then pinMode (ucast pinIndex) OUTPUT s1
        else s1)"

function setup_loop :: "uint16_t \<Rightarrow> board \<Rightarrow> board" where
  "setup_loop pinIndex s =
     (if pinIndex < 14 then setup_loop (pinIndex + 1) (setup_body pinIndex s) else s)"
  by pat_completeness auto
termination
  by (relation "measure (\<lambda>(pinIndex, s). 14 - unat pinIndex)")
     (auto simp: word_less_nat_alt unat_word_ariths)

declare setup_loop.simps [simp del]

text \<open>
  The part of the routine that touches the board: the scan of the pins and the
  direction of the RS485 control pin (lines 52 to 68 of the sketch).  What follows in
  the source stores the four handlers in the callback vector of the Modbus object and
  calls \<^verbatim>\<open>Serial.begin\<close> and \<^verbatim>\<open>slave.begin\<close>, which belong to the Arduino core and to the
  Modbus library and are not modelled.
\<close>

definition setup_sketch :: "board \<Rightarrow> board" where
  "setup_sketch s = pinMode (ucast CTRL_PIN) OUTPUT (setup_loop 3 s)"

subsection \<open>Reading coils and discrete inputs\<close>

function readCoils_loop :: "uint16_t \<Rightarrow> uint16_t \<Rightarrow> uint16_t \<Rightarrow> board \<Rightarrow> board" where
  "readCoils_loop address len i s =
     (if i < len then
        (case digitalRead (ucast (address + i)) s of (v, s1) \<Rightarrow>
           readCoils_loop address len (i + 1) (writeCoilToBuffer i v s1))
      else s)"
  by pat_completeness auto
termination
  by (relation "measure (\<lambda>(address, len, i, s). unat len - unat i)")
     (simp, simp, unat_arith)

declare readCoils_loop.simps [simp del]

definition readCoils :: "uint16_t \<Rightarrow> uint16_t \<Rightarrow> board \<Rightarrow> board" where
  "readCoils address len s = readCoils_loop address len 0 s"

function readDigitalIn_loop :: "uint16_t \<Rightarrow> uint16_t \<Rightarrow> uint16_t \<Rightarrow> board \<Rightarrow> board" where
  "readDigitalIn_loop address len i s =
     (if i < len then
        (case digitalRead (ucast (address + i)) s of (v, s1) \<Rightarrow>
           readDigitalIn_loop address len (i + 1) (writeCoilToBuffer i v s1))
      else s)"
  by pat_completeness auto
termination
  by (relation "measure (\<lambda>(address, len, i, s). unat len - unat i)")
     (simp, simp, unat_arith)

declare readDigitalIn_loop.simps [simp del]

definition readDigitalIn :: "uint8_t \<Rightarrow> uint16_t \<Rightarrow> uint16_t \<Rightarrow> board \<Rightarrow> board" where
  "readDigitalIn fc address len s =
     (if fc = FC_READ_COILS then readCoils address len s
      else readDigitalIn_loop address len 0 s)"

subsection \<open>Reading holding registers and input registers\<close>

function readAnalogIn_loop :: "uint16_t \<Rightarrow> uint16_t \<Rightarrow> uint16_t \<Rightarrow> board \<Rightarrow> board" where
  "readAnalogIn_loop address len i s =
     (if i < len then
        (case analogRead (ucast (address + i)) s of (v, s1) \<Rightarrow>
           readAnalogIn_loop address len (i + 1) (writeRegisterToBuffer i v s1))
      else s)"
  by pat_completeness auto
termination
  by (relation "measure (\<lambda>(address, len, i, s). unat len - unat i)")
     (simp, simp, unat_arith)

declare readAnalogIn_loop.simps [simp del]

definition readAnalogIn :: "uint16_t \<Rightarrow> uint16_t \<Rightarrow> board \<Rightarrow> board" where
  "readAnalogIn address len s = readAnalogIn_loop address len 0 s"

function readMemory_loop :: "uint16_t \<Rightarrow> uint16_t \<Rightarrow> uint16_t \<Rightarrow> board \<Rightarrow> board" where
  "readMemory_loop address len i s =
     (if i < len then
        (case EEPROM_get ((address + i) * 2) s of (v, s1) \<Rightarrow>
           readMemory_loop address len (i + 1) (writeRegisterToBuffer i v s1))
      else s)"
  by pat_completeness auto
termination
  by (relation "measure (\<lambda>(address, len, i, s). unat len - unat i)")
     (simp, simp, unat_arith)

declare readMemory_loop.simps [simp del]

definition readMemory :: "uint8_t \<Rightarrow> uint16_t \<Rightarrow> uint16_t \<Rightarrow> board \<Rightarrow> board" where
  "readMemory fc address len s =
     (if fc = FC_READ_INPUT_REGISTERS then readAnalogIn address len s
      else readMemory_loop address len 0 s)"

subsection \<open>Writing a coil\<close>

text \<open>The third argument of this handler is the coil status, not a length.\<close>

definition writeDigitlOut :: "uint8_t \<Rightarrow> uint16_t \<Rightarrow> uint16_t \<Rightarrow> board \<Rightarrow> board" where
  "writeDigitlOut fc address status s = digitalWrite (ucast address) (ucast status) s"

subsection \<open>Writing holding registers\<close>

text \<open>
  One round of the loop: read the value from the request buffer, put it into the
  EEPROM, and, for a register index in 3..13 other than the control pin, the
  \<^verbatim>\<open>switch\<close> on the value.
\<close>

definition writeMemory_body :: "uint16_t \<Rightarrow> uint16_t \<Rightarrow> board \<Rightarrow> board" where
  "writeMemory_body address i s =
     (let registerIndex = address + i in
      case readRegisterFromBuffer i s of (v, s1) \<Rightarrow>
        let s2 = EEPROM_put (registerIndex * 2) v s1 in
        if registerIndex > 2 \<and> registerIndex < 14 \<and> registerIndex \<noteq> CTRL_PIN then
          if v = PIN_MODE_INPUT then pinMode (ucast registerIndex) INPUT s2
          else if v = PIN_MODE_OUTPUT then pinMode (ucast registerIndex) OUTPUT s2
          else s2
        else s2)"

function writeMemory_loop :: "uint16_t \<Rightarrow> uint16_t \<Rightarrow> uint16_t \<Rightarrow> board \<Rightarrow> board" where
  "writeMemory_loop address len i s =
     (if i < len then writeMemory_loop address len (i + 1) (writeMemory_body address i s)
      else s)"
  by pat_completeness auto
termination
  by (relation "measure (\<lambda>(address, len, i, s). unat len - unat i)")
     (simp, simp, unat_arith)

declare writeMemory_loop.simps [simp del]

definition writeMemory :: "uint8_t \<Rightarrow> uint16_t \<Rightarrow> uint16_t \<Rightarrow> board \<Rightarrow> board" where
  "writeMemory fc address len s = writeMemory_loop address len 0 s"

subsection \<open>Concrete boards\<close>

text \<open>
  A board after power-on: every pin an input, every latch low, an erased EEPROM
  (\<open>0xFF\<close> in every byte), empty buffers and no call made yet.
\<close>

definition power_on :: board where
  "power_on =
     \<lparr>pin_dir = (\<lambda>pin. INPUT), pin_out = (\<lambda>pin. False), pin_in = (\<lambda>pin. False),
      analog_in = (\<lambda>pin. 0), eeprom = (\<lambda>idx. 255), bufIn = (\<lambda>offset. 0),
      bufOut_bits = Map.empty, bufOut_words = Map.empty, calls = []\<rparr>"

text \<open>The same board with pin 5 an output that drives \<^verbatim>\<open>HIGH\<close>.\<close>

definition coil_on :: board where
  "coil_on =
     power_on\<lparr>pin_dir := (pin_dir power_on)(5 := OUTPUT),
              pin_out := (pin_out power_on)(5 := True)\<rparr>"

text \<open>
  The power-on board with a request buffer that holds 0 in slot 0 and 1 in slot 1.
\<close>

definition mode_request :: board where
  "mode_request = power_on\<lparr>bufIn := (bufIn power_on)(0 := 0, 1 := 1)\<rparr>"

text \<open>
  The power-on board whose EEPROM holds the word 0 at word index 3 (bytes 6 and 7) and
  the word 1 at word index 4 (bytes 8 and 9).
\<close>

definition stored_modes :: board where
  "stored_modes = power_on\<lparr>eeprom := (eeprom power_on)(6 := 0, 7 := 0, 8 := 1, 9 := 0)\<rparr>"

text \<open>The power-on board with samples on the analog channels 0, 1 and 2.\<close>

definition sampled :: board where
  "sampled = power_on\<lparr>analog_in := (analog_in power_on)(0 := 512, 1 := 100, 2 := 1023)\<rparr>"

section \<open>Properties\<close>

subsection \<open>Auxiliary facts\<close>

lemmas prim_defs = pinMode_def digitalRead_def digitalWrite_def analogRead_def
  EEPROM_get_def EEPROM_put_def writeCoilToBuffer_def writeRegisterToBuffer_def
  readRegisterFromBuffer_def

text \<open>16-bit counters and pin numbers.\<close>

lemma word16_inc_le_iff: "(i :: uint16_t) < n \<Longrightarrow> i + 1 \<le> j \<longleftrightarrow> i < j"
  by unat_arith

lemma ucast_pin_inj:
  "(x :: uint16_t) < 14 \<Longrightarrow> y < 14 \<Longrightarrow> (ucast x :: uint8_t) = ucast y \<longleftrightarrow> x = y"
  by (auto simp: word_eq_iff_unsigned [where ?'a = nat] unsigned_ucast_eq
      word_less_nat_alt take_bit_nat_eq_self)

text \<open>The two bytes of a word, put and got back.\<close>

lemma put_get_word:
  "word_cat (ucast (drop_bit 8 v) :: uint8_t) (ucast v :: uint8_t) = (v :: uint16_t)"
  by (rule bit_word_eqI) (auto simp: bit_simps)

lemma eeprom_word_put:
  "eeprom_word (eeprom (EEPROM_put idx v s)) idx = v"
  by (simp add: EEPROM_put_def eeprom_word_def put_get_word)

text \<open>The two loops over the digital pins.\<close>

lemma readCoils_loop_eq:
  "readCoils_loop address len i s = readDigitalIn_loop address len i s"
proof (induction address len i s rule: readCoils_loop.induct)
  case (1 address len i s)
  then show ?case
    by (subst readCoils_loop.simps, subst readDigitalIn_loop.simps)
       (auto split: prod.splits)
qed

lemma pin_le_13_iff: "(p :: uint16_t) \<le> 13 \<longleftrightarrow> p < 14"
  by unat_arith

lemma pin_ge_3_iff: "3 \<le> (p :: uint16_t) \<longleftrightarrow> 2 < p"
  by unat_arith

lemma word16_succ_unat: "(i :: uint16_t) < n \<Longrightarrow> unat (i + 1) = Suc (unat i)"
  by unat_arith

lemma word16_upt_step:
  "(i :: uint16_t) < n \<Longrightarrow> [unat i..<unat n] = unat i # [unat (i + 1)..<unat n]"
  by (simp add: word16_succ_unat upt_conv_Cons word_less_nat_alt)

lemma word16_upt_done: "\<not> (i :: uint16_t) < n \<Longrightarrow> [unat i..<unat n] = []"
  by (simp add: word_less_nat_alt)

text \<open>What the two register loops write, from any value of the counter on.\<close>

lemma readMemory_loop_calls:
  "calls (readMemory_loop address len i s) =
     calls s @ concat (map (\<lambda>k. [EEPROMGet ((address + of_nat k) * 2),
        WriteRegisterToBuffer (of_nat k) (eeprom_word (eeprom s) ((address + of_nat k) * 2))])
        [unat i..<unat len])"
proof (induction address len i s rule: readMemory_loop.induct)
  case (1 address len i s)
  show ?case
  proof (cases "i < len")
    case True
    with 1 [OF True prod.collapse] show ?thesis
      by (subst readMemory_loop.simps)
         (simp add: EEPROM_get_def writeRegisterToBuffer_def word16_upt_step)
  next
    case False
    then show ?thesis
      by (subst readMemory_loop.simps) (simp add: word16_upt_done)
  qed
qed

lemma readMemory_loop_words:
  "bufOut_words (readMemory_loop address len i s) j =
     (if i \<le> j \<and> j < len then Some (eeprom_word (eeprom s) ((address + j) * 2))
      else bufOut_words s j)"
proof (induction address len i s rule: readMemory_loop.induct)
  case (1 address len i s)
  show ?case
  proof (cases "i < len")
    case True
    have "i \<le> j \<longleftrightarrow> i = j \<or> i < j" by (rule word_le_less_eq)
    with True 1 [OF True prod.collapse] show ?thesis
      by (subst readMemory_loop.simps)
         (auto simp: EEPROM_get_def writeRegisterToBuffer_def word16_inc_le_iff)
  next
    case False
    then show ?thesis
      by (subst readMemory_loop.simps) auto
  qed
qed

lemma readMemory_loop_bits:
  "bufOut_bits (readMemory_loop address len i s) = bufOut_bits s"
proof (induction address len i s rule: readMemory_loop.induct)
  case (1 address len i s)
  then show ?case
    by (subst readMemory_loop.simps)
       (auto simp: EEPROM_get_def writeRegisterToBuffer_def)
qed

lemma readAnalogIn_loop_words:
  "bufOut_words (readAnalogIn_loop address len i s) j =
     (if i \<le> j \<and> j < len then Some (analog_in s (ucast (address + j)))
      else bufOut_words s j)"
proof (induction address len i s rule: readAnalogIn_loop.induct)
  case (1 address len i s)
  show ?case
  proof (cases "i < len")
    case True
    have "i \<le> j \<longleftrightarrow> i = j \<or> i < j" by (rule word_le_less_eq)
    with True 1 [OF True prod.collapse] show ?thesis
      by (subst readAnalogIn_loop.simps)
         (auto simp: analogRead_def writeRegisterToBuffer_def word16_inc_le_iff)
  next
    case False
    then show ?thesis
      by (subst readAnalogIn_loop.simps) auto
  qed
qed

text \<open>
  The loop of \<^verbatim>\<open>writeMemory\<close>: a pin that no remaining round addresses keeps its
  direction, and a pin in 3..13 is addressed by one round at most.
\<close>

lemma writeMemory_body_bufIn: "bufIn (writeMemory_body address i s) = bufIn s"
  by (simp add: writeMemory_body_def Let_def prim_defs)

lemma writeMemory_body_pin_dir:
  "pin_dir (writeMemory_body address i s) =
     (if 2 < address + i \<and> address + i < 14 \<and> address + i \<noteq> CTRL_PIN
         \<and> bufIn s i = PIN_MODE_INPUT
      then (pin_dir s)(ucast (address + i) := INPUT)
      else if 2 < address + i \<and> address + i < 14 \<and> address + i \<noteq> CTRL_PIN
         \<and> bufIn s i = PIN_MODE_OUTPUT
      then (pin_dir s)(ucast (address + i) := OUTPUT)
      else pin_dir s)"
  by (simp add: writeMemory_body_def Let_def prim_defs)

lemma writeMemory_loop_pin_frame:
  "(\<And>j. i \<le> j \<Longrightarrow> j < len \<Longrightarrow> 2 < address + j \<Longrightarrow> address + j < 14 \<Longrightarrow>
      address + j \<noteq> CTRL_PIN \<Longrightarrow> ucast (address + j) \<noteq> pin) \<Longrightarrow>
   pin_dir (writeMemory_loop address len i s) pin = pin_dir s pin"
proof (induction address len i s rule: writeMemory_loop.induct)
  case (1 address len i s)
  show ?case
  proof (cases "i < len")
    case True
    have "pin_dir (writeMemory_loop address len (i + 1) (writeMemory_body address i s)) pin
        = pin_dir (writeMemory_body address i s) pin"
    proof (rule "1.IH" [OF True])
      fix j
      assume "i + 1 \<le> j" and rest: "j < len" "2 < address + j" "address + j < 14"
        "address + j \<noteq> CTRL_PIN"
      then have "i \<le> j" using True by (simp add: word16_inc_le_iff)
      with rest show "ucast (address + j) \<noteq> pin" using "1.prems" [of j] by simp
    qed
    also have "\<dots> = pin_dir s pin"
      using "1.prems" [of i] True by (auto simp: writeMemory_body_pin_dir)
    finally show ?thesis
      using True by (subst writeMemory_loop.simps) simp
  next
    case False
    then show ?thesis
      by (subst writeMemory_loop.simps) simp
  qed
qed

lemma writeMemory_loop_pin_hit:
  "i \<le> k \<Longrightarrow> k < len \<Longrightarrow> 2 < address + k \<Longrightarrow> address + k < 14 \<Longrightarrow>
   address + k \<noteq> CTRL_PIN \<Longrightarrow>
   pin_dir (writeMemory_loop address len i s) (ucast (address + k)) =
     (if bufIn s k = PIN_MODE_INPUT then INPUT
      else if bufIn s k = PIN_MODE_OUTPUT then OUTPUT
      else pin_dir s (ucast (address + k)))"
proof (induction address len i s rule: writeMemory_loop.induct)
  case (1 address len i s)
  from "1.prems" have less: "i < len" by simp
  let ?s = "writeMemory_body address i s"
  have unfold: "writeMemory_loop address len i s = writeMemory_loop address len (i + 1) ?s"
    using less by (subst writeMemory_loop.simps) simp
  show ?case
  proof (cases "i = k")
    case True
    have "pin_dir (writeMemory_loop address len (k + 1) ?s) (ucast (address + k))
        = pin_dir ?s (ucast (address + k))"
    proof (rule writeMemory_loop_pin_frame)
      fix j
      assume "k + 1 \<le> j" and j: "address + j < 14"
      with "1.prems" have "k < j" by (simp add: word16_inc_le_iff)
      then have "address + j \<noteq> address + k" by simp
      with j "1.prems" show "(ucast (address + j) :: uint8_t) \<noteq> ucast (address + k)"
        by (simp add: ucast_pin_inj)
    qed
    moreover from True unfold
    have "writeMemory_loop address len i s =
        writeMemory_loop address len (k + 1) (writeMemory_body address k s)"
      by simp
    ultimately have "pin_dir (writeMemory_loop address len i s) (ucast (address + k))
        = pin_dir (writeMemory_body address k s) (ucast (address + k))"
      using True by simp
    with "1.prems" show ?thesis
      by (simp add: writeMemory_body_pin_dir)
  next
    case False
    with "1.prems" have "i < k" by simp
    with less have "i + 1 \<le> k" by (simp add: word16_inc_le_iff)
    from "1.IH" [OF less this "1.prems"(2-5)]
    have "pin_dir (writeMemory_loop address len (i + 1) ?s) (ucast (address + k)) =
      (if bufIn s k = PIN_MODE_INPUT then INPUT
       else if bufIn s k = PIN_MODE_OUTPUT then OUTPUT
       else pin_dir ?s (ucast (address + k)))"
      by (simp add: writeMemory_body_bufIn)
    moreover have "pin_dir ?s (ucast (address + k)) = pin_dir s (ucast (address + k))"
      using False "1.prems" by (auto simp: writeMemory_body_pin_dir ucast_pin_inj)
    ultimately show ?thesis by (simp add: unfold)
  qed
qed

text \<open>The loop of the startup routine, in the same way.\<close>

lemma setup_body_eeprom: "eeprom (setup_body pinIndex s) = eeprom s"
  by (simp add: setup_body_def prim_defs)

lemma setup_body_pin_dir:
  "pin_dir (setup_body pinIndex s) =
     (if eeprom_word (eeprom s) (pinIndex * 2) = PIN_MODE_INPUT
      then (pin_dir s)(ucast pinIndex := INPUT)
      else if eeprom_word (eeprom s) (pinIndex * 2) = PIN_MODE_OUTPUT
      then (pin_dir s)(ucast pinIndex := OUTPUT)
      else pin_dir s)"
  by (simp add: setup_body_def prim_defs)

lemma setup_body_calls:
  "calls (setup_body pinIndex s) =
     calls s @ EEPROMGet (pinIndex * 2) #
       (if eeprom_word (eeprom s) (pinIndex * 2) = PIN_MODE_INPUT
        then [PinMode (ucast pinIndex) INPUT]
        else if eeprom_word (eeprom s) (pinIndex * 2) = PIN_MODE_OUTPUT
        then [PinMode (ucast pinIndex) OUTPUT]
        else [])"
  by (simp add: setup_body_def prim_defs)

lemma setup_loop_pin_frame:
  "(\<And>p. pinIndex \<le> p \<Longrightarrow> p < 14 \<Longrightarrow> ucast p \<noteq> pin) \<Longrightarrow>
   pin_dir (setup_loop pinIndex s) pin = pin_dir s pin"
proof (induction pinIndex s rule: setup_loop.induct)
  case (1 pinIndex s)
  show ?case
  proof (cases "pinIndex < 14")
    case True
    have "pin_dir (setup_loop (pinIndex + 1) (setup_body pinIndex s)) pin
        = pin_dir (setup_body pinIndex s) pin"
    proof (rule "1.IH" [OF True])
      fix p
      assume "pinIndex + 1 \<le> p" and "p < 14"
      then show "ucast p \<noteq> pin"
        using True "1.prems" [of p] by (simp add: word16_inc_le_iff)
    qed
    also have "\<dots> = pin_dir s pin"
      using "1.prems" [of pinIndex] True by (auto simp: setup_body_pin_dir)
    finally show ?thesis
      using True by (subst setup_loop.simps) simp
  next
    case False
    then show ?thesis
      by (subst setup_loop.simps) simp
  qed
qed

lemma setup_loop_pin_hit:
  "pinIndex \<le> p \<Longrightarrow> p < 14 \<Longrightarrow>
   pin_dir (setup_loop pinIndex s) (ucast p) =
     (if eeprom_word (eeprom s) (p * 2) = PIN_MODE_INPUT then INPUT
      else if eeprom_word (eeprom s) (p * 2) = PIN_MODE_OUTPUT then OUTPUT
      else pin_dir s (ucast p))"
proof (induction pinIndex s rule: setup_loop.induct)
  case (1 pinIndex s)
  from "1.prems" have less: "pinIndex < 14" by simp
  let ?s = "setup_body pinIndex s"
  have unfold: "setup_loop pinIndex s = setup_loop (pinIndex + 1) ?s"
    using less by (subst setup_loop.simps) simp
  show ?case
  proof (cases "pinIndex = p")
    case True
    have "pin_dir (setup_loop (p + 1) (setup_body p s)) (ucast p)
        = pin_dir (setup_body p s) (ucast p)"
    proof (rule setup_loop_pin_frame)
      fix q
      assume "p + 1 \<le> q" and q: "q < 14"
      with "1.prems" have "p < q" by (simp add: word16_inc_le_iff)
      with q "1.prems" show "(ucast q :: uint8_t) \<noteq> ucast p"
        by (simp add: ucast_pin_inj)
    qed
    with True unfold show ?thesis
      by (simp add: setup_body_pin_dir)
  next
    case False
    with "1.prems" have "pinIndex < p" by simp
    with less have "pinIndex + 1 \<le> p" by (simp add: word16_inc_le_iff)
    from "1.IH" [OF less this "1.prems"(2)]
    have "pin_dir (setup_loop (pinIndex + 1) ?s) (ucast p) =
      (if eeprom_word (eeprom s) (p * 2) = PIN_MODE_INPUT then INPUT
       else if eeprom_word (eeprom s) (p * 2) = PIN_MODE_OUTPUT then OUTPUT
       else pin_dir ?s (ucast p))"
      by (simp add: setup_body_eeprom)
    moreover have "pin_dir ?s (ucast p) = pin_dir s (ucast p)"
      using False less "1.prems" by (auto simp: setup_body_pin_dir ucast_pin_inj)
    ultimately show ?thesis by (simp add: unfold)
  qed
qed

lemma setup_loop_calls:
  "calls (setup_loop pinIndex s) =
     calls s @ concat (map (\<lambda>k. EEPROMGet (of_nat k * 2) #
       (if eeprom_word (eeprom s) (of_nat k * 2) = PIN_MODE_INPUT
        then [PinMode (ucast (of_nat k :: uint16_t)) INPUT]
        else if eeprom_word (eeprom s) (of_nat k * 2) = PIN_MODE_OUTPUT
        then [PinMode (ucast (of_nat k :: uint16_t)) OUTPUT]
        else [])) [unat pinIndex..<14])"
proof (induction pinIndex s rule: setup_loop.induct)
  case (1 pinIndex s)
  show ?case
  proof (cases "pinIndex < 14")
    case True
    from word16_upt_step [OF True]
    have "[unat pinIndex..<14] = unat pinIndex # [unat (pinIndex + 1)..<14]" by simp
    with 1 [OF True, unfolded setup_body_eeprom] True show ?thesis
      by (subst setup_loop.simps) (simp add: setup_body_calls)
  next
    case False
    with word16_upt_done [OF False] show ?thesis
      by (subst setup_loop.simps) simp
  qed
qed

lemma ucast_pin_unat: "(p :: uint16_t) < 14 \<Longrightarrow> unat (ucast p :: uint8_t) = unat p"
  by (simp add: unsigned_ucast_eq word_less_nat_alt take_bit_nat_eq_self)

lemma other_word_untouched:
  assumes "(p :: uint16_t) < 14" and "p \<noteq> CTRL_PIN"
  shows "eeprom_word (mem(CTRL_PIN * 2 := lo, CTRL_PIN * 2 + 1 := hi)) (p * 2) =
    eeprom_word mem (p * 2)"
proof -
  from assms have small: "unat p < 14" and "unat p \<noteq> 8"
    by (simp_all add: CTRL_PIN_def word_less_nat_alt word_eq_iff_unsigned [where ?'a = nat])
  then have "unat (p * 2) = unat p * 2" and "unat (p * 2 + 1) = unat p * 2 + 1"
    by (simp_all add: unat_word_ariths)
  with \<open>unat p \<noteq> 8\<close>
  have "unat (p * 2) \<noteq> 16 \<and> unat (p * 2) \<noteq> 17 \<and> unat (p * 2 + 1) \<noteq> 16 \<and> unat (p * 2 + 1) \<noteq> 17"
    by presburger
  then have "p * 2 \<noteq> 16 \<and> p * 2 \<noteq> 17 \<and> p * 2 + 1 \<noteq> 16 \<and> p * 2 + 1 \<noteq> 17"
    by auto
  then show ?thesis
    by (simp add: eeprom_word_def CTRL_PIN_def)
qed

lemma setup_loop_other_word:
  assumes "pin \<noteq> ucast CTRL_PIN"
  shows "pin_dir (setup_loop 3
       (s\<lparr>eeprom := (eeprom s)(CTRL_PIN * 2 := lo, CTRL_PIN * 2 + 1 := hi)\<rparr>)) pin
     = pin_dir (setup_loop 3 s) pin"
proof (cases "\<exists>p :: uint16_t. 3 \<le> p \<and> p < 14 \<and> ucast p = pin")
  case True
  let ?s = "s\<lparr>eeprom := (eeprom s)(CTRL_PIN * 2 := lo, CTRL_PIN * 2 + 1 := hi)\<rparr>"
  from True obtain p :: uint16_t where p: "3 \<le> p" "p < 14" and pin: "pin = ucast p"
    by blast
  from assms pin have "p \<noteq> CTRL_PIN" by blast
  with p have same: "eeprom_word (eeprom ?s) (p * 2) = eeprom_word (eeprom s) (p * 2)"
    by (simp add: other_word_untouched)
  have "pin_dir (setup_loop 3 ?s) (ucast p) =
     (if eeprom_word (eeprom ?s) (p * 2) = PIN_MODE_INPUT then INPUT
      else if eeprom_word (eeprom ?s) (p * 2) = PIN_MODE_OUTPUT then OUTPUT
      else pin_dir ?s (ucast p))"
    using p by (rule setup_loop_pin_hit)
  moreover have "pin_dir (setup_loop 3 s) (ucast p) =
     (if eeprom_word (eeprom s) (p * 2) = PIN_MODE_INPUT then INPUT
      else if eeprom_word (eeprom s) (p * 2) = PIN_MODE_OUTPUT then OUTPUT
      else pin_dir s (ucast p))"
    using p by (rule setup_loop_pin_hit)
  moreover have "pin_dir ?s (ucast p) = pin_dir s (ucast p)" by simp
  ultimately show ?thesis
    unfolding pin same by simp
next
  case False
  let ?s = "s\<lparr>eeprom := (eeprom s)(CTRL_PIN * 2 := lo, CTRL_PIN * 2 + 1 := hi)\<rparr>"
  from False have miss: "ucast p \<noteq> pin" if "3 \<le> p" and "p < 14" for p :: uint16_t
    using that by blast
  have "pin_dir (setup_loop 3 ?s) pin = pin_dir ?s pin"
    by (rule setup_loop_pin_frame) (rule miss)
  moreover have "pin_dir (setup_loop 3 s) pin = pin_dir s pin"
    by (rule setup_loop_pin_frame) (rule miss)
  ultimately show ?thesis by simp
qed

subsection \<open>The EEPROM keeps what is put\<close>

text \<open>
  Claim C4.  A put of the 16-bit value \<open>v\<close> at word index \<open>idx\<close>, that is at byte offset
  \<open>idx * 2\<close> as \<^verbatim>\<open>writeMemory\<close> does it, followed by a get at the same offset as
  \<^verbatim>\<open>readMemory\<close> does it, returns \<open>v\<close>.  The same through the two handlers: writing one
  holding register at \<open>idx\<close> and reading one holding register at \<open>idx\<close> answers with
  the word of the request.  The model addresses the EEPROM with every 16-bit byte
  offset, so the statement holds for every \<open>idx\<close>, whatever the size of the device.
\<close>

theorem store_put_get_roundtrip:
  "fst (EEPROM_get (idx * 2) (EEPROM_put (idx * 2) v s)) = v \<and>
   bufOut_words
     (readMemory FC_READ_HOLDING_REGISTERS idx 1
        (writeMemory FC_WRITE_MULTIPLE_REGISTERS idx 1 s)) 0 = Some (bufIn s 0)"
proof
  show "fst (EEPROM_get (idx * 2) (EEPROM_put (idx * 2) v s)) = v"
    by (simp add: EEPROM_get_def eeprom_word_put)
next
  let ?w = "writeMemory FC_WRITE_MULTIPLE_REGISTERS idx 1 s"
  have w: "eeprom_word (eeprom ?w) (idx * 2) = bufIn s 0"
    by (simp add: writeMemory_def writeMemory_loop.simps writeMemory_body_def Let_def
        readRegisterFromBuffer_def pinMode_def eeprom_word_put)
  have "bufOut_words (readMemory FC_READ_HOLDING_REGISTERS idx 1 ?w) 0
      = Some (eeprom_word (eeprom ?w) (idx * 2))"
    by (simp add: readMemory_def FC_READ_HOLDING_REGISTERS_def FC_READ_INPUT_REGISTERS_def
        readMemory_loop.simps EEPROM_get_def writeRegisterToBuffer_def)
  with w show "bufOut_words (readMemory FC_READ_HOLDING_REGISTERS idx 1 ?w) 0 = Some (bufIn s 0)"
    by simp
qed

subsection \<open>Coils and discrete inputs are read alike\<close>

text \<open>
  Claim C5.  For every address, every length and every board, Read Coils takes the
  \<^verbatim>\<open>FC_READ_COILS\<close> branch of \<^verbatim>\<open>readDigitalIn\<close>, which is \<^verbatim>\<open>readCoils\<close>, Read Discrete
  Inputs falls through to the loop of \<^verbatim>\<open>readDigitalIn\<close> itself, and the two leave the
  same board behind: the same response buffer and the same calls.
\<close>

theorem read_coils_eq_read_discrete_inputs:
  "readDigitalIn FC_READ_COILS address len s = readCoils address len s \<and>
   readDigitalIn FC_READ_DISCRETE_INPUT address len s = readDigitalIn_loop address len 0 s \<and>
   readDigitalIn FC_READ_COILS address len s =
     readDigitalIn FC_READ_DISCRETE_INPUT address len s"
  by (simp add: readDigitalIn_def readCoils_def readCoils_loop_eq
      FC_READ_COILS_def FC_READ_DISCRETE_INPUT_def)

subsection \<open>Requests of length 0\<close>

text \<open>
  Claim C9, as the sketch has it.  For every function code and every address, the
  three handlers that take a length (\<^verbatim>\<open>readDigitalIn\<close> for coils and discrete inputs,
  \<^verbatim>\<open>readMemory\<close> for holding and input registers, \<^verbatim>\<open>writeMemory\<close>) return the board as
  it was when the length is 0: nothing is written to the response, no call is logged,
  no pin and no byte of the EEPROM changes.  The third argument of \<^verbatim>\<open>writeDigitlOut\<close> is
  the coil status; with 0 there the handler makes one \<^verbatim>\<open>digitalWrite\<close> that clears the
  latch of the addressed pin.
\<close>

theorem length_zero_is_noop:
  "readDigitalIn fc address 0 s = s \<and>
   readMemory fc address 0 s = s \<and>
   writeMemory fc address 0 s = s \<and>
   writeDigitlOut fc address 0 s =
     s\<lparr>pin_out := (pin_out s)(ucast address := False),
       calls := calls s @ [DigitalWrite (ucast address) 0]\<rparr>"
  by (simp add: readDigitalIn_def readCoils_def readCoils_loop.simps
      readDigitalIn_loop.simps readMemory_def readAnalogIn_def readAnalogIn_loop.simps
      readMemory_loop.simps writeMemory_def writeMemory_loop.simps
      writeDigitlOut_def digitalWrite_def)

text \<open>
  Claim C9 as stated fails for Write Single Coil: on a board whose pin 5 drives
  \<^verbatim>\<open>HIGH\<close>, the request with 0 in the third field logs a pin write and leaves pin 5
  driving \<^verbatim>\<open>LOW\<close>.
\<close>

theorem length_zero_write_coil_changes_pin:
  "pin_out coil_on 5 \<and>
   \<not> pin_out (writeDigitlOut FC_WRITE_COIL 5 0 coil_on) 5 \<and>
   calls coil_on = [] \<and>
   calls (writeDigitlOut FC_WRITE_COIL 5 0 coil_on) = [DigitalWrite 5 0]"
  by (simp add: writeDigitlOut_def digitalWrite_def coil_on_def power_on_def)

subsection \<open>Writing the mode registers\<close>

text \<open>
  Claim C1.  Take a Write Multiple Holding Registers request and a slot \<open>i\<close> below its
  length whose register index \<open>p = address + i\<close> lies in 3..13 and is not the control
  pin.  After the request pin \<open>p\<close> is an \<^verbatim>\<open>INPUT\<close> when slot \<open>i\<close> of the request holds
  0, an \<^verbatim>\<open>OUTPUT\<close> when it holds 1, and has the direction it had before the request for
  every other 16-bit value.
\<close>

theorem write_mode_register_sets_pin_mode:
  assumes "i < len" and "address + i = p" and "3 \<le> p" and "p \<le> 13" and "p \<noteq> CTRL_PIN"
  shows "pin_dir (writeMemory fc address len s) (ucast p) =
     (if bufIn s i = 0 then INPUT
      else if bufIn s i = 1 then OUTPUT
      else pin_dir s (ucast p))"
proof -
  from \<open>3 \<le> p\<close> have "2 < p" by (simp add: pin_ge_3_iff)
  moreover from \<open>p \<le> 13\<close> have "p < 14" by (simp add: pin_le_13_iff)
  ultimately show ?thesis
    using assms writeMemory_loop_pin_hit [of 0 i len address s]
    by (simp add: writeMemory_def PIN_MODE_INPUT_def PIN_MODE_OUTPUT_def)
qed

theorem write_mode_register_sets_pin_mode_witness:
  "(1 :: uint16_t) < 2 \<and> (3 :: uint16_t) + 1 = 4 \<and> (3 :: uint16_t) \<le> 4 \<and>
   (4 :: uint16_t) \<le> 13 \<and> (4 :: uint16_t) \<noteq> CTRL_PIN \<and>
   pin_dir power_on 4 = INPUT \<and>
   pin_dir (writeMemory FC_WRITE_MULTIPLE_REGISTERS 3 2 mode_request) 4 = OUTPUT"
  using write_mode_register_sets_pin_mode
    [of 1 2 3 4 FC_WRITE_MULTIPLE_REGISTERS mode_request]
  by (simp add: CTRL_PIN_def mode_request_def power_on_def)

text \<open>
  Claim C2.  No Write Multiple Holding Registers request, whatever its address, its
  length and the values it carries, changes the direction of the control pin, pin 8.
  A request that writes register 8 alone stores the value in the EEPROM, where a get
  at the byte offset \<open>8 * 2\<close> finds it, and leaves the pin as it was.
\<close>

theorem write_never_reconfigures_control_pin:
  "pin_dir (writeMemory fc address len s) (ucast CTRL_PIN) = pin_dir s (ucast CTRL_PIN) \<and>
   fst (EEPROM_get (CTRL_PIN * 2) (writeMemory fc CTRL_PIN 1 s)) = bufIn s 0"
proof
  show "pin_dir (writeMemory fc address len s) (ucast CTRL_PIN) = pin_dir s (ucast CTRL_PIN)"
    unfolding writeMemory_def
  proof (rule writeMemory_loop_pin_frame)
    fix j
    assume "address + j < 14" and "address + j \<noteq> CTRL_PIN"
    then show "(ucast (address + j) :: uint8_t) \<noteq> ucast CTRL_PIN"
      using ucast_pin_inj [of "address + j" CTRL_PIN] by (simp add: CTRL_PIN_def)
  qed
next
  show "fst (EEPROM_get (CTRL_PIN * 2) (writeMemory fc CTRL_PIN 1 s)) = bufIn s 0"
    by (simp add: writeMemory_def writeMemory_loop.simps writeMemory_body_def Let_def
        readRegisterFromBuffer_def EEPROM_get_def eeprom_word_put)
qed

text \<open>
  Claim C3.  The request with address 3, length 2 and the values 0 and 1 in the request
  buffer leaves pin 3 an \<^verbatim>\<open>INPUT\<close> and pin 4 an \<^verbatim>\<open>OUTPUT\<close>; afterwards the EEPROM holds
  0 at word index 3 and 1 at word index 4, read at the byte offsets \<open>3 * 2\<close> and
  \<open>4 * 2\<close>, and the handler has put them at the byte offsets 6 and 8.
\<close>

theorem write_two_mode_registers:
  assumes "bufIn s 0 = 0" and "bufIn s 1 = 1"
  shows "pin_dir (writeMemory FC_WRITE_MULTIPLE_REGISTERS 3 2 s) 3 = INPUT \<and>
     pin_dir (writeMemory FC_WRITE_MULTIPLE_REGISTERS 3 2 s) 4 = OUTPUT \<and>
     fst (EEPROM_get (3 * 2) (writeMemory FC_WRITE_MULTIPLE_REGISTERS 3 2 s)) = 0 \<and>
     fst (EEPROM_get (4 * 2) (writeMemory FC_WRITE_MULTIPLE_REGISTERS 3 2 s)) = 1 \<and>
     calls (writeMemory FC_WRITE_MULTIPLE_REGISTERS 3 2 s) =
       calls s @ [ReadRegisterFromBuffer 0, EEPROMPut 6 0, PinMode 3 INPUT,
                  ReadRegisterFromBuffer 1, EEPROMPut 8 1, PinMode 4 OUTPUT]"
  using assms
  by (simp add: writeMemory_def writeMemory_loop.simps writeMemory_body_def Let_def
      prim_defs eeprom_word_def CTRL_PIN_def PIN_MODE_INPUT_def PIN_MODE_OUTPUT_def)

theorem write_two_mode_registers_witness:
  "bufIn mode_request 0 = 0 \<and> bufIn mode_request 1 = 1 \<and>
   pin_dir (writeMemory FC_WRITE_MULTIPLE_REGISTERS 3 2 mode_request) 3 = INPUT \<and>
   pin_dir (writeMemory FC_WRITE_MULTIPLE_REGISTERS 3 2 mode_request) 4 = OUTPUT \<and>
   fst (EEPROM_get 6 (writeMemory FC_WRITE_MULTIPLE_REGISTERS 3 2 mode_request)) = 0 \<and>
   fst (EEPROM_get 8 (writeMemory FC_WRITE_MULTIPLE_REGISTERS 3 2 mode_request)) = 1"
proof -
  have request: "bufIn mode_request 0 = 0" "bufIn mode_request 1 = 1"
    by (simp_all add: mode_request_def power_on_def)
  from write_two_mode_registers [OF request] request show ?thesis
    by simp
qed

subsection \<open>The scan of the pins at startup\<close>

text \<open>
  Claim C8.  The loop of the startup routine visits the pin indices 3, 4, ..., 13, in
  this order and no other: for each it gets the word at the byte offset \<open>p * 2\<close> of
  the EEPROM, then calls \<^verbatim>\<open>pinMode\<close> with \<^verbatim>\<open>INPUT\<close> for the word 0, with \<^verbatim>\<open>OUTPUT\<close> for
  the word 1, and makes no call for any other word.  So after the loop a pin in 3..13
  is an input, an output, or what it was before, according to its word, and every pin
  outside 3..13 is what it was before.  For every pin of 3..13 but the control pin
  this is also its direction when the whole routine has run.
\<close>

theorem setup_scans_pins_3_to_13:
  "(\<forall>p. 3 \<le> p \<and> p \<le> 13 \<longrightarrow>
      pin_dir (setup_loop 3 s) (ucast p) =
        (if fst (EEPROM_get (p * 2) s) = 0 then INPUT
         else if fst (EEPROM_get (p * 2) s) = 1 then OUTPUT
         else pin_dir s (ucast p))) \<and>
   (\<forall>pin. pin < 3 \<or> 13 < pin \<longrightarrow> pin_dir (setup_loop 3 s) pin = pin_dir s pin) \<and>
   calls (setup_loop 3 s) =
     calls s @ concat (map (\<lambda>p. EEPROMGet (p * 2) #
       (if fst (EEPROM_get (p * 2) s) = 0 then [PinMode (ucast p) INPUT]
        else if fst (EEPROM_get (p * 2) s) = 1 then [PinMode (ucast p) OUTPUT]
        else [])) [3, 4, 5, 6, 7, 8, 9, 10, 11, 12, 13]) \<and>
   (\<forall>p. 3 \<le> p \<and> p \<le> 13 \<and> p \<noteq> CTRL_PIN \<longrightarrow>
      pin_dir (setup_sketch s) (ucast p) = pin_dir (setup_loop 3 s) (ucast p))"
proof (intro conjI allI impI)
  fix p :: uint16_t
  assume "3 \<le> p \<and> p \<le> 13"
  then have "3 \<le> p" and "p < 14" by (simp_all add: pin_le_13_iff)
  then have "pin_dir (setup_loop 3 s) (ucast p) =
     (if eeprom_word (eeprom s) (p * 2) = PIN_MODE_INPUT then INPUT
      else if eeprom_word (eeprom s) (p * 2) = PIN_MODE_OUTPUT then OUTPUT
      else pin_dir s (ucast p))"
    by (rule setup_loop_pin_hit)
  then show "pin_dir (setup_loop 3 s) (ucast p) =
        (if fst (EEPROM_get (p * 2) s) = 0 then INPUT
         else if fst (EEPROM_get (p * 2) s) = 1 then OUTPUT
         else pin_dir s (ucast p))"
    by (simp add: EEPROM_get_def PIN_MODE_INPUT_def PIN_MODE_OUTPUT_def)
next
  fix pin :: uint8_t
  assume outside: "pin < 3 \<or> 13 < pin"
  show "pin_dir (setup_loop 3 s) pin = pin_dir s pin"
  proof (rule setup_loop_pin_frame)
    fix p :: uint16_t
    assume "3 \<le> p" and "p < 14"
    then have "3 \<le> unat p" and "unat p < 14" and "unat (ucast p :: uint8_t) = unat p"
      by (simp_all add: ucast_pin_unat word_le_nat_alt word_less_nat_alt)
    with outside show "ucast p \<noteq> pin"
      by (auto simp: word_less_nat_alt)
  qed
next
  have "[unat (3 :: uint16_t)..<14] = [3, 4, 5, 6, 7, 8, 9, 10, 11, 12, 13]"
    by (simp add: upt_rec_numeral)
  with setup_loop_calls [of 3 s]
  show "calls (setup_loop 3 s) =
     calls s @ concat (map (\<lambda>p. EEPROMGet (p * 2) #
       (if fst (EEPROM_get (p * 2) s) = 0 then [PinMode (ucast p) INPUT]
        else if fst (EEPROM_get (p * 2) s) = 1 then [PinMode (ucast p) OUTPUT]
        else [])) [3, 4, 5, 6, 7, 8, 9, 10, 11, 12, 13])"
    by (simp add: EEPROM_get_def PIN_MODE_INPUT_def PIN_MODE_OUTPUT_def)
next
  fix p :: uint16_t
  assume "3 \<le> p \<and> p \<le> 13 \<and> p \<noteq> CTRL_PIN"
  then have "p < 14" and "p \<noteq> CTRL_PIN" by (simp_all add: pin_le_13_iff)
  then have "(ucast p :: uint8_t) \<noteq> ucast CTRL_PIN"
    using ucast_pin_inj [of p CTRL_PIN] by (simp add: CTRL_PIN_def)
  then show "pin_dir (setup_sketch s) (ucast p) = pin_dir (setup_loop 3 s) (ucast p)"
    by (simp add: setup_sketch_def pinMode_def)
qed

theorem setup_scans_pins_3_to_13_witness:
  "(3 :: uint16_t) \<le> 4 \<and> (4 :: uint16_t) \<le> 13 \<and> (4 :: uint16_t) \<noteq> CTRL_PIN \<and>
   fst (EEPROM_get (4 * 2) stored_modes) = 1 \<and>
   pin_dir (setup_loop 3 stored_modes) 4 = OUTPUT \<and>
   pin_dir (setup_sketch stored_modes) 4 = OUTPUT \<and>
   ((20 :: uint8_t) < 3 \<or> 13 < (20 :: uint8_t)) \<and>
   pin_dir (setup_loop 3 stored_modes) 20 = INPUT"
proof -
  note scan = setup_scans_pins_3_to_13 [of stored_modes]
  have word4: "fst (EEPROM_get (4 * 2) stored_modes) = 1"
    by (simp add: stored_modes_def power_on_def EEPROM_get_def eeprom_word_def)
  have pin4: "(3 :: uint16_t) \<le> 4 \<and> (4 :: uint16_t) \<le> 13" by simp
  have pin4': "(3 :: uint16_t) \<le> 4 \<and> (4 :: uint16_t) \<le> 13 \<and> (4 :: uint16_t) \<noteq> CTRL_PIN"
    by (simp add: CTRL_PIN_def)
  have pin20: "(20 :: uint8_t) < 3 \<or> 13 < (20 :: uint8_t)" by simp
  from scan pin4 have "pin_dir (setup_loop 3 stored_modes) (ucast (4 :: uint16_t)) =
        (if fst (EEPROM_get (4 * 2) stored_modes) = 0 then INPUT
         else if fst (EEPROM_get (4 * 2) stored_modes) = 1 then OUTPUT
         else pin_dir stored_modes (ucast (4 :: uint16_t)))"
    by blast
  with word4 have a: "pin_dir (setup_loop 3 stored_modes) 4 = OUTPUT" by simp
  from scan pin4' have "pin_dir (setup_sketch stored_modes) (ucast (4 :: uint16_t)) =
      pin_dir (setup_loop 3 stored_modes) (ucast (4 :: uint16_t))"
    by blast
  with a have b: "pin_dir (setup_sketch stored_modes) 4 = OUTPUT" by simp
  from scan pin20 have "pin_dir (setup_loop 3 stored_modes) 20 = pin_dir stored_modes 20"
    by blast
  then have c: "pin_dir (setup_loop 3 stored_modes) 20 = INPUT"
    by (simp add: stored_modes_def power_on_def)
  from word4 pin4' pin20 a b c show ?thesis by simp
qed

subsection \<open>The control pin after startup\<close>

text \<open>
  Claim C10.  When the startup routine has run, the control pin is an \<^verbatim>\<open>OUTPUT\<close>,
  whatever word the EEPROM holds at index 8.  The scan treats pin 8 like every other
  pin of 3..13: after the loop its direction follows the stored word.  The call of
  \<^verbatim>\<open>pinMode\<close> that comes after the loop then sets it to \<^verbatim>\<open>OUTPUT\<close>, and two boards that
  differ only in the two bytes of that word end the routine with the same direction
  on every pin.
\<close>

theorem control_pin_is_output_after_setup:
  "pin_dir (setup_sketch s) (ucast CTRL_PIN) = OUTPUT \<and>
   pin_dir (setup_loop 3 s) (ucast CTRL_PIN) =
     (if fst (EEPROM_get (CTRL_PIN * 2) s) = 0 then INPUT
      else if fst (EEPROM_get (CTRL_PIN * 2) s) = 1 then OUTPUT
      else pin_dir s (ucast CTRL_PIN)) \<and>
   pin_dir (setup_sketch (s\<lparr>eeprom := (eeprom s)(CTRL_PIN * 2 := lo, CTRL_PIN * 2 + 1 := hi)\<rparr>))
     = pin_dir (setup_sketch s)"
proof (intro conjI)
  show "pin_dir (setup_sketch s) (ucast CTRL_PIN) = OUTPUT"
    by (simp add: setup_sketch_def pinMode_def)
next
  have "(3 :: uint16_t) \<le> CTRL_PIN" and "CTRL_PIN < 14"
    by (simp_all add: CTRL_PIN_def)
  then have "pin_dir (setup_loop 3 s) (ucast CTRL_PIN) =
     (if eeprom_word (eeprom s) (CTRL_PIN * 2) = PIN_MODE_INPUT then INPUT
      else if eeprom_word (eeprom s) (CTRL_PIN * 2) = PIN_MODE_OUTPUT then OUTPUT
      else pin_dir s (ucast CTRL_PIN))"
    by (rule setup_loop_pin_hit)
  then show "pin_dir (setup_loop 3 s) (ucast CTRL_PIN) =
     (if fst (EEPROM_get (CTRL_PIN * 2) s) = 0 then INPUT
      else if fst (EEPROM_get (CTRL_PIN * 2) s) = 1 then OUTPUT
      else pin_dir s (ucast CTRL_PIN))"
    by (simp add: EEPROM_get_def PIN_MODE_INPUT_def PIN_MODE_OUTPUT_def)
next
  show "pin_dir (setup_sketch (s\<lparr>eeprom := (eeprom s)(CTRL_PIN * 2 := lo, CTRL_PIN * 2 + 1 := hi)\<rparr>))
     = pin_dir (setup_sketch s)"
  proof
    fix pin
    show "pin_dir (setup_sketch (s\<lparr>eeprom := (eeprom s)(CTRL_PIN * 2 := lo, CTRL_PIN * 2 + 1 := hi)\<rparr>)) pin
     = pin_dir (setup_sketch s) pin"
      by (cases "pin = ucast CTRL_PIN")
         (simp_all add: setup_sketch_def pinMode_def setup_loop_other_word)
  qed
qed

subsection \<open>Reading registers\<close>

text \<open>
  Claim C6.  For a Read Holding Registers request with any address and length, slot
  \<open>i\<close> of the response holds, for every \<open>i\<close> below the length, the word that
  \<^verbatim>\<open>EEPROM.get\<close> returns at the byte offset \<open>(address + i) * 2\<close>, that is the word of
  the backing store at index \<open>address + i\<close>.  Every slot from the length on holds what
  it held before, the bits of the response are not touched, and the calls of the
  handler are one get and one write of a response word for each of the slots
  0, ..., length - 1, in this order, and nothing else.
\<close>

theorem read_holding_registers_response:
  "(\<forall>i. i < len \<longrightarrow>
      bufOut_words (readMemory FC_READ_HOLDING_REGISTERS address len s) i =
        Some (fst (EEPROM_get ((address + i) * 2) s))) \<and>
   (\<forall>j. \<not> j < len \<longrightarrow>
      bufOut_words (readMemory FC_READ_HOLDING_REGISTERS address len s) j =
        bufOut_words s j) \<and>
   bufOut_bits (readMemory FC_READ_HOLDING_REGISTERS address len s) = bufOut_bits s \<and>
   calls (readMemory FC_READ_HOLDING_REGISTERS address len s) =
     calls s @ concat (map (\<lambda>k. [EEPROMGet ((address + of_nat k) * 2),
        WriteRegisterToBuffer (of_nat k) (fst (EEPROM_get ((address + of_nat k) * 2) s))])
        [0..<unat len])"
proof -
  have run: "readMemory FC_READ_HOLDING_REGISTERS address len s =
      readMemory_loop address len 0 s"
    by (simp add: readMemory_def FC_READ_HOLDING_REGISTERS_def FC_READ_INPUT_REGISTERS_def)
  show ?thesis
    unfolding run
    using readMemory_loop_calls [of address len 0 s]
    by (simp add: readMemory_loop_words readMemory_loop_bits EEPROM_get_def)
qed

theorem read_holding_registers_response_witness:
  "(1 :: uint16_t) < 2 \<and>
   bufOut_words (readMemory FC_READ_HOLDING_REGISTERS 3 2 stored_modes) 1 = Some 1 \<and>
   \<not> (2 :: uint16_t) < 2 \<and>
   bufOut_words (readMemory FC_READ_HOLDING_REGISTERS 3 2 stored_modes) 2 = None"
proof -
  note resp = read_holding_registers_response [of 2 3 stored_modes]
  have inside: "(1 :: uint16_t) < 2" and outside: "\<not> (2 :: uint16_t) < 2" by simp_all
  from resp inside
  have "bufOut_words (readMemory FC_READ_HOLDING_REGISTERS 3 2 stored_modes) 1 =
      Some (fst (EEPROM_get ((3 + 1) * 2) stored_modes))"
    by blast
  then have a: "bufOut_words (readMemory FC_READ_HOLDING_REGISTERS 3 2 stored_modes) 1 = Some 1"
    by (simp add: stored_modes_def power_on_def EEPROM_get_def eeprom_word_def)
  from resp outside
  have "bufOut_words (readMemory FC_READ_HOLDING_REGISTERS 3 2 stored_modes) 2 =
      bufOut_words stored_modes 2"
    by blast
  then have b: "bufOut_words (readMemory FC_READ_HOLDING_REGISTERS 3 2 stored_modes) 2 = None"
    by (simp add: stored_modes_def power_on_def)
  from inside outside a b show ?thesis by simp
qed

text \<open>
  Claim C7.  For a Read Input Registers request with any address and length, slot \<open>i\<close>
  of the response holds, for every \<open>i\<close> below the length, the sample that
  \<^verbatim>\<open>analogRead(address + i)\<close> returns (the pin argument of \<^verbatim>\<open>analogRead\<close> is a
  \<^verbatim>\<open>uint8_t\<close>).  With address 0 and length 3 the slots 0, 1 and 2 hold the samples of
  the pins 0, 1 and 2, read and written in this order.
\<close>

theorem read_input_registers_response:
  "(\<forall>i. i < len \<longrightarrow>
      bufOut_words (readMemory FC_READ_INPUT_REGISTERS address len s) i =
        Some (fst (analogRead (ucast (address + i)) s))) \<and>
   bufOut_words (readMemory FC_READ_INPUT_REGISTERS 0 3 s) 0 = Some (fst (analogRead 0 s)) \<and>
   bufOut_words (readMemory FC_READ_INPUT_REGISTERS 0 3 s) 1 = Some (fst (analogRead 1 s)) \<and>
   bufOut_words (readMemory FC_READ_INPUT_REGISTERS 0 3 s) 2 = Some (fst (analogRead 2 s)) \<and>
   calls (readMemory FC_READ_INPUT_REGISTERS 0 3 s) =
     calls s @ [AnalogRead 0, WriteRegisterToBuffer 0 (fst (analogRead 0 s)),
                AnalogRead 1, WriteRegisterToBuffer 1 (fst (analogRead 1 s)),
                AnalogRead 2, WriteRegisterToBuffer 2 (fst (analogRead 2 s))]"
proof -
  have run: "readMemory FC_READ_INPUT_REGISTERS address len s =
      readAnalogIn_loop address len 0 s" for address len
    by (simp add: readMemory_def readAnalogIn_def)
  have "calls (readAnalogIn_loop 0 3 0 s) =
     calls s @ [AnalogRead 0, WriteRegisterToBuffer 0 (analog_in s 0),
                AnalogRead 1, WriteRegisterToBuffer 1 (analog_in s 1),
                AnalogRead 2, WriteRegisterToBuffer 2 (analog_in s 2)]"
    by (simp add: readAnalogIn_loop.simps analogRead_def writeRegisterToBuffer_def)
  then show ?thesis
    unfolding run
    by (simp add: readAnalogIn_loop_words analogRead_def)
qed

theorem read_input_registers_response_witness:
  "(2 :: uint16_t) < 3 \<and>
   bufOut_words (readMemory FC_READ_INPUT_REGISTERS 0 3 sampled) 2 = Some 1023"
proof -
  have inside: "(2 :: uint16_t) < 3" by simp
  with read_input_registers_response [of 3 0 sampled]
  have "bufOut_words (readMemory FC_READ_INPUT_REGISTERS 0 3 sampled) 2 =
      Some (fst (analogRead (ucast ((0 :: uint16_t) + 2)) sampled))"
    by blast
  with inside show ?thesis
    by (simp add: sampled_def power_on_def analogRead_def)
qed

end
